theory Spec2Isabelle
  imports Complex_Main "HOL-Library.Multiset"
begin

section \<open>Arrays\<close>

text \<open>
  A one-dimensional numpy array is a list, a two-dimensional one a list of rows.
  Floating-point numbers are idealised as reals: the arithmetic below is exact.
\<close>

type_synonym vec = "real list"
type_synonym matrix = "real list list"

datatype error = ValueError | IndexError | ZeroDivisionError

text \<open>
  numpy broadcasting of a binary operation over two-dimensional operands: an axis of
  length 1 is stretched to the length of the other operand's axis. All operands below
  have shape (1, N), (N, 1) or (N, N) for one and the same N.
\<close>

definition bc_row :: "('a \<Rightarrow> 'b \<Rightarrow> 'c) \<Rightarrow> 'a list \<Rightarrow> 'b list \<Rightarrow> 'c list" where
  "bc_row f r s =
     (if length r = 1 \<and> length s \<noteq> 1 then map (f (hd r)) s
      else if length s = 1 \<and> length r \<noteq> 1 then map (\<lambda>x. f x (hd s)) r
      else map2 f r s)"

definition broadcast :: "('a \<Rightarrow> 'b \<Rightarrow> 'c) \<Rightarrow> 'a list list \<Rightarrow> 'b list list \<Rightarrow> 'c list list" where
  "broadcast f A B =
     (if length A = 1 \<and> length B \<noteq> 1 then map (bc_row f (hd A)) B
      else if length B = 1 \<and> length A \<noteq> 1 then map (\<lambda>r. bc_row f r (hd B)) A
      else map2 (bc_row f) A B)"

text \<open>\<open>np.expand_dims(v, 0)\<close> has shape (1, N), \<open>np.expand_dims(v, 1)\<close> shape (N, 1).\<close>

definition expand_dims_0 :: "'a list \<Rightarrow> 'a list list" where
  "expand_dims_0 v = [v]"

definition expand_dims_1 :: "'a list \<Rightarrow> 'a list list" where
  "expand_dims_1 v = map (\<lambda>x. [x]) v"

definition dot :: "vec \<Rightarrow> vec \<Rightarrow> real" where
  "dot x y = sum_list (map2 (*) x y)"

text \<open>\<open>np.matmul(E, E.T)\<close>: entry [i][j] is the dot product of rows i and j of E.\<close>

definition matmul_T :: "matrix \<Rightarrow> matrix" where
  "matmul_T E = map (\<lambda>x. map (\<lambda>y. dot x y) E) E"

definition diagonal :: "matrix \<Rightarrow> vec" where
  "diagonal M = map (\<lambda>i. M ! i ! i) [0..<length M]"

definition scalar_mul :: "real \<Rightarrow> matrix \<Rightarrow> matrix" where
  "scalar_mul c M = map (map (\<lambda>x. c * x)) M"

definition np_maximum :: "matrix \<Rightarrow> real \<Rightarrow> matrix" where
  "np_maximum M c = map (map (\<lambda>x. max x c)) M"

text \<open>
  \<open>np.argmax\<close> and \<open>np.argmin\<close> of a row: the index of the first occurrence of the
  largest (smallest) entry. numpy raises on an empty row; every caller below passes a
  row with at least one entry.
\<close>

fun argmax :: "real list \<Rightarrow> nat" where
  "argmax [] = 0"
| "argmax [x] = 0"
| "argmax (x # xs) = (let k = argmax xs in if xs ! k \<le> x then 0 else Suc k)"

fun argmin :: "real list \<Rightarrow> nat" where
  "argmin [] = 0"
| "argmin [x] = 0"
| "argmin (x # xs) = (let k = argmin xs in if x \<le> xs ! k then 0 else Suc k)"

fun amax :: "real list \<Rightarrow> real" where
  "amax [] = 0"
| "amax [x] = x"
| "amax (x # xs) = max x (amax xs)"

section \<open>The pairwise distance computer\<close>

definition pairwise_distances :: "matrix \<Rightarrow> matrix" where
  "pairwise_distances embeddings =
     (let dot_products = matmul_T embeddings;
          square_norms = diagonal dot_products;
          distances =
            broadcast (+)
              (broadcast (-) (expand_dims_0 square_norms) (scalar_mul 2 dot_products))
              (expand_dims_0 square_norms)
      in np_maximum distances 0)"

text \<open>
  The squared Euclidean distance of two vectors of equal dimension, as the specification
  words it: the sum of the squared differences of the coordinates.
\<close>

definition spec_squared_distance :: "vec \<Rightarrow> vec \<Rightarrow> real" where
  "spec_squared_distance a b = sum_list (map2 (\<lambda>x y. (x - y)\<^sup>2) a b)"

section \<open>The batch assembler and the batch-hard miner\<close>

text \<open>
  The state of an \<open>OnlineTripletGenerator\<close>. An example (a tensor of shape
  (example_length, n_features)) is a value of the type parameter; the stored data set is
  the list of examples \<open>X_data\<close> and the one-hot label rows \<open>y_data\<close>; the tower
  model's \<open>predict\<close> is a function from a batch of examples to their embeddings.
\<close>

record 'x generator =
  tower_model :: "'x list \<Rightarrow> matrix"
  X_data :: "'x list"
  y_data :: matrix
  n_examples :: nat
  n_classes :: nat
  batch_size :: int
  indices :: "nat list"
  this_batch_size :: nat

definition eye :: "nat \<Rightarrow> matrix" where
  "eye n = map (\<lambda>i. map (\<lambda>j. if i = j then 1 else 0) [0..<n]) [0..<n]"

definition logical_not :: "matrix \<Rightarrow> bool list list" where
  "logical_not M = map (map (\<lambda>x. x = 0)) M"

definition anchor_positive_mask :: "int list \<Rightarrow> bool list list" where
  "anchor_positive_mask labels =
     (let indices_equal = eye (length labels);
          indices_not_equal = logical_not indices_equal;
          labels_equal = broadcast (=) (expand_dims_0 labels) (expand_dims_1 labels);
          mask = broadcast (\<and>) indices_not_equal labels_equal
      in mask)"

definition anchor_negative_mask :: "int list \<Rightarrow> bool list list" where
  "anchor_negative_mask labels =
     (let labels_equal = broadcast (=) (expand_dims_0 labels) (expand_dims_1 labels);
          mask = map (map Not) labels_equal
      in mask)"

text \<open>
  An empty batch gives matrices of shape (0, 0), on which the row-wise \<open>argmax\<close> raises
  \<open>ValueError\<close>.
\<close>

definition batch_hard ::
  "'x generator \<Rightarrow> matrix \<Rightarrow> int list \<Rightarrow> error + (nat list \<times> nat list \<times> nat list)" where
  "batch_hard self embeddings labels =
     (let anchor_inds = [0..<this_batch_size self];
          pairwise_dists = pairwise_distances embeddings;
          mask_anchor_positive = anchor_positive_mask labels;
          anchor_positive_dists =
            broadcast (\<lambda>m d. of_bool m * d) mask_anchor_positive pairwise_dists
      in if anchor_positive_dists = [] then Inl ValueError
         else
           let positive_inds = map argmax anchor_positive_dists;
               mask_anchor_negative = anchor_negative_mask labels;
               max_dist = map (\<lambda>r. [amax r]) pairwise_dists;
               anchor_negative_dists =
                 broadcast (+) pairwise_dists
                   (broadcast (*) max_dist
                      (map (map (\<lambda>m. 1 - of_bool m)) mask_anchor_negative));
               negative_inds = map argmin anchor_negative_dists
           in Inr (anchor_inds, positive_inds, negative_inds))"

section \<open>Label encodings\<close>

text \<open>
  The argument of \<open>one_hot_to_index\<close> is a numpy array whose shape the function
  inspects: a one-dimensional array, or a two-dimensional one with its number of columns
  (\<open>y.shape[1]\<close>) and its rows. The function returns a single index or a list of
  indices.
\<close>

datatype ndarray = Arr1 vec | Arr2 nat matrix

datatype index_result = Scalar int | Indices "int list"

definition nonzero :: "vec \<Rightarrow> nat list" where
  "nonzero v = filter (\<lambda>i. v ! i \<noteq> 0) [0..<length v]"

fun one_hot_to_index :: "ndarray \<Rightarrow> index_result" where
  "one_hot_to_index (Arr1 y) =
     (if length (nonzero y) = 0 then Scalar (- 1) else Scalar (int (argmax y)))"
| "one_hot_to_index (Arr2 ncols y) =
     (if ncols = 0 then
        (if length (nonzero (concat y)) = 0 then Scalar (- 1)
         else Scalar (int (argmax (concat y))))
      else Indices (map (\<lambda>num. if length (nonzero num) = 0 then - 1 else int (argmax num)) y))"

text \<open>
  \<open>index_to_one_hot\<close> on a one-dimensional array of integer labels. \<open>np.eye(n)[y]\<close>
  reads row \<open>k\<close> of the identity for a label \<open>0 \<le> k < n\<close>, row \<open>k + n\<close> for
  \<open>- n \<le> k < 0\<close>, and raises \<open>IndexError\<close> for any other label. An empty \<open>y\<close> is
  returned as it is.
\<close>

definition index_to_one_hot :: "int list \<Rightarrow> nat \<Rightarrow> error + ndarray" where
  "index_to_one_hot y n_cls =
     (if length y = 0 then Inr (Arr1 [])
      else
        let minus_one = filter (\<lambda>i. y ! i = - 1) [0..<length y]
        in if list_ex (\<lambda>k. k < - int n_cls \<or> int n_cls \<le> k) y then Inl IndexError
           else
             let one_hot = map (\<lambda>k. eye n_cls ! nat (if k < 0 then k + int n_cls else k)) y;
                 one_hot = fold (\<lambda>i oh. oh[i := replicate n_cls (- 1)]) minus_one one_hot
             in Inr (Arr2 n_cls one_hot))"

section \<open>Batches of an epoch\<close>

text \<open>
  \<open>random.shuffle\<close> of the Python standard library: for \<open>i\<close> from \<open>len(x) - 1\<close> down
  to 1, swap \<open>x[i]\<close> with \<open>x[j]\<close> for a random \<open>j\<close> below \<open>i + 1\<close>. The random source
  is a parameter; \<open>randbelow\<close> reduces its draw into the range.
\<close>

definition randbelow :: "(nat \<Rightarrow> nat) \<Rightarrow> nat \<Rightarrow> nat" where
  "randbelow rnd k = rnd k mod k"

fun shuffle_loop :: "(nat \<Rightarrow> nat) \<Rightarrow> nat \<Rightarrow> 'a list \<Rightarrow> 'a list" where
  "shuffle_loop rnd 0 x = x"
| "shuffle_loop rnd (Suc i) x =
     (let j = randbelow rnd (Suc i + 1)
      in shuffle_loop rnd i (x[Suc i := x ! j, j := x ! Suc i]))"

definition shuffle :: "(nat \<Rightarrow> nat) \<Rightarrow> 'a list \<Rightarrow> 'a list" where
  "shuffle rnd x = shuffle_loop rnd (length x - 1) x"

definition on_epoch_end :: "(nat \<Rightarrow> nat) \<Rightarrow> 'x generator \<Rightarrow> 'x generator" where
  "on_epoch_end rnd self = self\<lparr>indices := shuffle rnd (indices self)\<rparr>"

text \<open>
  The constructor reads the stored arrays of the data set: the examples, the one-hot
  label rows and the number of label columns (\<open>y.shape[1]\<close>).
\<close>

definition init ::
  "(nat \<Rightarrow> nat) \<Rightarrow> ('x list \<Rightarrow> matrix) \<Rightarrow> 'x list \<Rightarrow> matrix \<Rightarrow> nat \<Rightarrow> int \<Rightarrow> 'x generator" where
  "init rnd tower X y y_cols bs =
     on_epoch_end rnd
       \<lparr>tower_model = tower, X_data = X, y_data = y, n_examples = length X,
        n_classes = y_cols, batch_size = bs, indices = [0..<length X],
        this_batch_size = 0\<rparr>"

definition len :: "'x generator \<Rightarrow> error + int" where
  "len self =
     (if batch_size self = 0 then Inl ZeroDivisionError
      else Inr \<lceil>real (n_examples self) / real_of_int (batch_size self)\<rceil>)"

text \<open>A Python slice \<open>xs[lo:hi]\<close>: a negative bound counts from the end, and both are clipped.\<close>

definition py_slice :: "'a list \<Rightarrow> int \<Rightarrow> int \<Rightarrow> 'a list" where
  "py_slice xs lo hi =
     (let n = int (length xs);
          l = (if lo < 0 then max (lo + n) 0 else min lo n);
          h = (if hi < 0 then max (hi + n) 0 else min hi n)
      in take (nat (h - l)) (drop (nat l) xs))"

text \<open>
  The boolean mask over the stored rows that is true at the rows of the batch, and the
  selection by that mask, which keeps the selected rows in their stored order.
\<close>

definition boolean_mask :: "nat \<Rightarrow> nat list \<Rightarrow> bool list" where
  "boolean_mask n batch_indices = map (\<lambda>i. i \<in> set batch_indices) [0..<n]"

definition select_mask :: "'a list \<Rightarrow> bool list \<Rightarrow> 'a list" where
  "select_mask data bmask = map fst (filter snd (zip data bmask))"

definition fancy_index :: "'a list \<Rightarrow> nat list \<Rightarrow> error + 'a list" where
  "fancy_index xs idx =
     (if list_all (\<lambda>i. i < length xs) idx then Inr (map (\<lambda>i. xs ! i) idx)
      else Inl IndexError)"

text \<open>
  \<open>__getitem__\<close> returns the three example batches and the dummy targets, and leaves
  \<open>this_batch_size\<close> set. The reshape of the selected rows raises \<open>ValueError\<close> when
  their number is not the batch size; a label array without a first axis raises
  \<open>IndexError\<close> in the mask construction.
\<close>

definition getitem ::
  "'x generator \<Rightarrow> int \<Rightarrow> error + (('x list \<times> 'x list \<times> 'x list) \<times> vec) \<times> 'x generator" where
  "getitem self0 index =
     (let batch_indices =
            py_slice (indices self0) (index * batch_size self0) ((index + 1) * batch_size self0);
          self = self0\<lparr>this_batch_size := length batch_indices\<rparr>;
          X_boolean_mask = boolean_mask (n_examples self) batch_indices;
          X_selected = select_mask (X_data self) X_boolean_mask;
          y_boolean_mask = boolean_mask (n_examples self) batch_indices;
          y_selected = select_mask (y_data self) y_boolean_mask
      in if length X_selected \<noteq> this_batch_size self \<or> length y_selected \<noteq> this_batch_size self
         then Inl ValueError
         else
           let X_batch = X_selected;
               y_batch = Arr2 (n_classes self) y_selected;
               embeddings = tower_model self X_batch
           in case one_hot_to_index y_batch of
                Scalar k \<Rightarrow> Inl IndexError
              | Indices labels \<Rightarrow>
                  (case batch_hard self embeddings labels of
                     Inl e \<Rightarrow> Inl e
                   | Inr (anchor_inds, positive_inds, negative_inds) \<Rightarrow>
                       (case fancy_index X_batch anchor_inds of
                          Inl e \<Rightarrow> Inl e
                        | Inr X_anchors \<Rightarrow>
                            (case fancy_index X_batch positive_inds of
                               Inl e \<Rightarrow> Inl e
                             | Inr X_positives \<Rightarrow>
                                 (case fancy_index X_batch negative_inds of
                                    Inl e \<Rightarrow> Inl e
                                  | Inr X_negatives \<Rightarrow>
                                      let y_dummy = replicate (this_batch_size self) 0
                                      in Inr (((X_anchors, X_positives, X_negatives), y_dummy),
                                              self))))))"

section \<open>The triplet loss\<close>

text \<open>
  The Keras backend functions on batches of row vectors. \<open>K.sqrt\<close> clips its argument
  to the non-negative numbers first. \<open>K.epsilon()\<close> is a constant of the Keras
  configuration: it is the parameter \<open>eps\<close>.
\<close>

definition ALPHA :: real where
  "ALPHA = 1"

definition K_sqrt :: "matrix \<Rightarrow> matrix" where
  "K_sqrt M = map (map (\<lambda>x. sqrt (max x 0))) M"

definition K_square :: "matrix \<Rightarrow> matrix" where
  "K_square M = map (map (\<lambda>x. x * x)) M"

definition K_sum_axis1 :: "matrix \<Rightarrow> matrix" where
  "K_sum_axis1 M = map (\<lambda>r. [sum_list r]) M"

definition euclidean_distance :: "real \<Rightarrow> matrix \<times> matrix \<Rightarrow> matrix" where
  "euclidean_distance eps vects =
     (case vects of (x, y) \<Rightarrow>
        K_sqrt (np_maximum (K_sum_axis1 (K_square (broadcast (-) x y))) eps))"

definition triplet_distance :: "real \<Rightarrow> matrix \<times> matrix \<times> matrix \<Rightarrow> matrix" where
  "triplet_distance eps vects =
     (case vects of (A, P, N) \<Rightarrow>
        np_maximum
          (map (map (\<lambda>v. v + ALPHA))
             (broadcast (-) (euclidean_distance eps (A, P)) (euclidean_distance eps (A, N))))
          0)"

text \<open>
  The distance of two embeddings as the specification words it: the square root of the
  sum of the squared coordinate differences, floored at \<open>eps\<close>.
\<close>

definition spec_d :: "real \<Rightarrow> vec \<Rightarrow> vec \<Rightarrow> real" where
  "spec_d eps x y = sqrt (max (sum_list (map2 (\<lambda>a b. (a - b)\<^sup>2) x y)) eps)"

section \<open>Matrices by their entries\<close>

text \<open>
  For the proofs: the matrix of shape (n, n) whose entry [i][j] is \<open>g i j\<close>. Every
  matrix of the miner is of this form.
\<close>

definition tab :: "nat \<Rightarrow> (nat \<Rightarrow> nat \<Rightarrow> 'a) \<Rightarrow> 'a list list" where
  "tab n g = map (\<lambda>i. map (g i) [0..<n]) [0..<n]"

section \<open>Broadcasting and the entries of the computed matrices\<close>

lemma tab_cong: "(\<And>i j. i < n \<Longrightarrow> j < n \<Longrightarrow> g i j = h i j) \<Longrightarrow> tab n g = tab n h"
  by (simp add: tab_def)

lemma length_tab: "length (tab n g) = n"
  by (simp add: tab_def)

lemma nth_tab: "i < n \<Longrightarrow> j < n \<Longrightarrow> tab n g ! i ! j = g i j"
  by (simp add: tab_def)

lemma length_nth_tab: "i < n \<Longrightarrow> length (tab n g ! i) = n"
  by (simp add: tab_def)

lemma map_map_tab: "map (map h) (tab n g) = tab n (\<lambda>i j. h (g i j))"
  by (simp add: tab_def)

lemma bc_row_same: "length r = length s \<Longrightarrow> bc_row f r s = map2 f r s"
  by (auto simp: bc_row_def)

lemma map2_upt: "map2 f (map a [0..<n]) (map b [0..<n]) = map (\<lambda>j. f (a j) (b j)) [0..<n]"
  by (simp add: map2_map_map)


lemma broadcast_tab_tab: "broadcast f (tab n a) (tab n b) = tab n (\<lambda>i j. f (a i j) (b i j))"
  by (simp add: broadcast_def tab_def bc_row_same map2_map_map)

lemma broadcast_row_tab:
  assumes "length v = n"
  shows "broadcast f [v] (tab n b) = tab n (\<lambda>i j. f (v ! j) (b i j))"
proof -
  have row: "bc_row f v (map (b i) [0..<n]) = map (\<lambda>j. f (v ! j) (b i j)) [0..<n]" for i
    using assms by (simp add: bc_row_same list_eq_iff_nth_eq)
  show ?thesis
  proof (cases "n = 1")
    case True
    then show ?thesis using row[of 0] by (simp add: broadcast_def tab_def)
  next
    case False
    then show ?thesis using row by (simp add: broadcast_def tab_def)
  qed
qed

lemma broadcast_tab_row:
  assumes "length v = n"
  shows "broadcast f (tab n a) [v] = tab n (\<lambda>i j. f (a i j) (v ! j))"
proof -
  have row: "bc_row f (map (a i) [0..<n]) v = map (\<lambda>j. f (a i j) (v ! j)) [0..<n]" for i
    using assms by (simp add: bc_row_same list_eq_iff_nth_eq)
  show ?thesis
  proof (cases "n = 1")
    case True
    then show ?thesis using row[of 0] by (simp add: broadcast_def tab_def)
  next
    case False
    then show ?thesis using row by (simp add: broadcast_def tab_def)
  qed
qed

lemma broadcast_col_tab:
  assumes "length c = n"
  shows "broadcast f (map (\<lambda>x. [x]) c) (tab n b) = tab n (\<lambda>i j. f (c ! i) (b i j))"
proof -
  have row: "bc_row f [x] (map (b i) [0..<n]) = map (\<lambda>j. f x (b i j)) [0..<n]" for i x
    by (cases "n = 1") (simp_all add: bc_row_def)
  have "broadcast f (map (\<lambda>x. [x]) c) (tab n b) = map2 (bc_row f) (map (\<lambda>x. [x]) c) (tab n b)"
    using assms by (simp add: broadcast_def tab_def)
  also have "\<dots> = tab n (\<lambda>i j. f (c ! i) (b i j))"
    using assms by (simp add: tab_def list_eq_iff_nth_eq row)
  finally show ?thesis .
qed

lemma broadcast_row_col:
  assumes "length v = n" "length c = n"
  shows "broadcast f [v] (map (\<lambda>x. [x]) c) = tab n (\<lambda>i j. f (v ! j) (c ! i))"
proof (cases "n = 1")
  case True
  then obtain a b where "v = [a]" "c = [b]"
    using assms by (metis One_nat_def length_0_conv length_Suc_conv)
  then show ?thesis using True by (simp add: broadcast_def tab_def bc_row_def)
next
  case False
  have row: "bc_row f v [x] = map (\<lambda>j. f (v ! j) x) [0..<n]" for x
    using assms False by (simp add: bc_row_def list_eq_iff_nth_eq)
  show ?thesis using assms False
    by (simp add: broadcast_def tab_def list_eq_iff_nth_eq row)
qed

lemma matmul_T_tab: "matmul_T E = tab (length E) (\<lambda>i j. dot (E ! i) (E ! j))"
  unfolding matmul_T_def tab_def by (rule nth_equalityI) (simp_all add: map_nth cong: map_cong, (rule nth_equalityI, simp_all))

lemma diagonal_tab: "diagonal (tab n g) = map (\<lambda>i. g i i) [0..<n]"
  by (simp add: diagonal_def tab_def)

lemma pairwise_distances_tab:
  "pairwise_distances E =
     tab (length E) (\<lambda>i j. max (dot (E ! j) (E ! j) - 2 * dot (E ! i) (E ! j) + dot (E ! j) (E ! j)) 0)"
proof -
  let ?n = "length E"
  let ?sq = "map (\<lambda>i. dot (E ! i) (E ! i)) [0..<?n]"
  have sq: "diagonal (matmul_T E) = ?sq"
    by (simp add: matmul_T_tab diagonal_tab)
  have s1: "broadcast (-) [?sq] (scalar_mul 2 (matmul_T E))
      = tab ?n (\<lambda>i j. ?sq ! j - 2 * dot (E ! i) (E ! j))"
    by (simp add: matmul_T_tab scalar_mul_def map_map_tab broadcast_row_tab)
  have s2: "broadcast (+) (tab ?n (\<lambda>i j. ?sq ! j - 2 * dot (E ! i) (E ! j))) [?sq]
      = tab ?n (\<lambda>i j. ?sq ! j - 2 * dot (E ! i) (E ! j) + ?sq ! j)"
    by (simp add: broadcast_tab_row)
  have s3: "tab ?n (\<lambda>i j. max (?sq ! j - 2 * dot (E ! i) (E ! j) + ?sq ! j) 0)
      = tab ?n (\<lambda>i j. max (dot (E ! j) (E ! j) - 2 * dot (E ! i) (E ! j) + dot (E ! j) (E ! j)) 0)"
    by (rule tab_cong) simp
  show ?thesis
    unfolding pairwise_distances_def Let_def sq expand_dims_0_def s1 s2 np_maximum_def map_map_tab s3 ..
qed


lemma argmax_less: "xs \<noteq> [] \<Longrightarrow> argmax xs < length xs"
  by (induction xs rule: argmax.induct) (auto simp: Let_def)

lemma argmax_ge: "j < length xs \<Longrightarrow> xs ! j \<le> xs ! argmax xs"
proof (induction xs arbitrary: j rule: argmax.induct)
  case (3 x y ys)
  show ?case
  proof (cases j)
    case 0
    then show ?thesis by (simp add: Let_def)
  next
    case (Suc k)
    with 3 have "(y # ys) ! k \<le> (y # ys) ! argmax (y # ys)" by simp
    with Suc show ?thesis by (auto simp: Let_def)
  qed
qed simp_all

lemma argmin_less: "xs \<noteq> [] \<Longrightarrow> argmin xs < length xs"
  by (induction xs rule: argmin.induct) (auto simp: Let_def)

lemma argmin_le: "j < length xs \<Longrightarrow> xs ! argmin xs \<le> xs ! j"
proof (induction xs arbitrary: j rule: argmin.induct)
  case (3 x y ys)
  show ?case
  proof (cases j)
    case 0
    then show ?thesis by (simp add: Let_def)
  next
    case (Suc k)
    with 3 have "(y # ys) ! argmin (y # ys) \<le> (y # ys) ! k" by simp
    with Suc show ?thesis by (auto simp: Let_def)
  qed
qed simp_all

lemma amax_ge: "j < length xs \<Longrightarrow> xs ! j \<le> amax xs"
proof (induction xs arbitrary: j rule: amax.induct)
  case (3 x y ys)
  show ?case
  proof (cases j)
    case 0
    then show ?thesis by simp
  next
    case (Suc k)
    with 3 have "(y # ys) ! k \<le> amax (y # ys)" by simp
    with Suc show ?thesis by simp
  qed
qed simp_all

lemma eye_tab: "eye n = tab n (\<lambda>i j. if i = j then 1 else 0)"
  by (simp add: eye_def tab_def)

lemma labels_equal_tab:
  "broadcast (=) (expand_dims_0 labels) (expand_dims_1 labels)
     = tab (length labels) (\<lambda>i j. labels ! j = labels ! i)"
  by (simp add: expand_dims_0_def expand_dims_1_def broadcast_row_col)

lemma anchor_positive_mask_tab:
  "anchor_positive_mask labels
     = tab (length labels) (\<lambda>i j. i \<noteq> j \<and> labels ! j = labels ! i)"
proof -
  have "logical_not (eye (length labels)) = tab (length labels) (\<lambda>i j. i \<noteq> j)"
    unfolding eye_tab logical_not_def map_map_tab by (rule tab_cong) simp
  then show ?thesis
    by (simp add: anchor_positive_mask_def Let_def labels_equal_tab broadcast_tab_tab)
qed

lemma anchor_negative_mask_tab:
  "anchor_negative_mask labels = tab (length labels) (\<lambda>i j. labels ! j \<noteq> labels ! i)"
  by (simp add: anchor_negative_mask_def Let_def labels_equal_tab map_map_tab)

text \<open>The rows from which the miner picks the positive and the negative of anchor \<open>a\<close>.\<close>

lemma batch_hard_rows:
  assumes "length labels = length E" "E \<noteq> []"
  shows "batch_hard self E labels =
     Inr ([0..<this_batch_size self],
          map (\<lambda>a. argmax (map (\<lambda>p. of_bool (a \<noteq> p \<and> labels ! p = labels ! a)
                                    * pairwise_distances E ! a ! p) [0..<length E]))
            [0..<length E],
          map (\<lambda>a. argmin (map (\<lambda>n. pairwise_distances E ! a ! n
                                    + amax (pairwise_distances E ! a)
                                      * (1 - of_bool (labels ! n \<noteq> labels ! a))) [0..<length E]))
            [0..<length E])"
proof -
  let ?n = "length E"
  let ?D = "pairwise_distances E"
  obtain d where D: "?D = tab ?n d"
    using pairwise_distances_tab by blast
  have row: "a < ?n \<Longrightarrow> ?D ! a = map (d a) [0..<?n]" for a
    by (simp add: D tab_def)
  have pos: "broadcast (\<lambda>m d. of_bool m * d) (anchor_positive_mask labels) ?D
      = tab ?n (\<lambda>a p. of_bool (a \<noteq> p \<and> labels ! p = labels ! a) * d a p)"
    using assms by (simp add: anchor_positive_mask_tab D broadcast_tab_tab)
  have md: "map (\<lambda>r. [amax r]) ?D = map (\<lambda>x. [x]) (map (\<lambda>a. amax (map (d a) [0..<?n])) [0..<?n])"
    by (simp add: D tab_def)
  have neg: "broadcast (+) ?D
        (broadcast (*) (map (\<lambda>r. [amax r]) ?D)
           (map (map (\<lambda>m. 1 - of_bool m)) (anchor_negative_mask labels)))
      = tab ?n (\<lambda>a n. d a n + amax (map (d a) [0..<?n]) * (1 - of_bool (labels ! n \<noteq> labels ! a)))"
  proof -
    have "broadcast (*) (map (\<lambda>r. [amax r]) ?D)
           (map (map (\<lambda>m. 1 - of_bool m)) (anchor_negative_mask labels))
        = tab ?n (\<lambda>a n. map (\<lambda>a. amax (map (d a) [0..<?n])) [0..<?n] ! a
                          * (1 - of_bool (labels ! n \<noteq> labels ! a)))"
      unfolding md anchor_negative_mask_tab map_map_tab
      using assms by (subst broadcast_col_tab) simp_all
    also have "\<dots> = tab ?n (\<lambda>a n. amax (map (d a) [0..<?n]) * (1 - of_bool (labels ! n \<noteq> labels ! a)))"
      by (rule tab_cong) simp
    finally show ?thesis
      by (simp add: D broadcast_tab_tab)
  qed
  have ne: "tab ?n g \<noteq> []" for g :: "nat \<Rightarrow> nat \<Rightarrow> real"
    using assms by (simp add: tab_def)
  have dd: "a < ?n \<Longrightarrow> p < ?n \<Longrightarrow> ?D ! a ! p = d a p" for a p
    by (simp add: D tab_def)
  have am: "a < ?n \<Longrightarrow> amax (?D ! a) = amax (map (d a) [0..<?n])" for a
    by (simp add: row)
  have P: "map argmax (tab ?n (\<lambda>a p. of_bool (a \<noteq> p \<and> labels ! p = labels ! a) * d a p))
      = map (\<lambda>a. argmax (map (\<lambda>p. of_bool (a \<noteq> p \<and> labels ! p = labels ! a)
                                    * ?D ! a ! p) [0..<?n])) [0..<?n]"
    by (auto simp: tab_def dd intro!: arg_cong[where f = argmax])
  have N: "map argmin (tab ?n (\<lambda>a n. d a n + amax (map (d a) [0..<?n])
                                      * (1 - of_bool (labels ! n \<noteq> labels ! a))))
      = map (\<lambda>a. argmin (map (\<lambda>n. ?D ! a ! n + amax (?D ! a)
                                      * (1 - of_bool (labels ! n \<noteq> labels ! a))) [0..<?n]))
          [0..<?n]"
    by (auto simp: tab_def dd am intro!: arg_cong[where f = argmin])
  show ?thesis
    unfolding batch_hard_def Let_def pos neg P N
    using ne by simp
qed


lemmas eval_defs = pairwise_distances_def matmul_T_def diagonal_def dot_def broadcast_def
  bc_row_def expand_dims_0_def expand_dims_1_def scalar_mul_def np_maximum_def upt_rec
  batch_hard_def anchor_positive_mask_def anchor_negative_mask_def eye_def logical_not_def Let_def

lemma pairwise_distances_nth:
  assumes "i < length E" "j < length E"
  shows "pairwise_distances E ! i ! j = max (2 * dot (E ! j) (E ! j) - 2 * dot (E ! i) (E ! j)) 0"
  using assms by (simp add: pairwise_distances_tab nth_tab)

lemma length_pairwise_distances: "length (pairwise_distances E) = length E"
  by (simp add: pairwise_distances_tab length_tab)

lemma length_pairwise_distances_row:
  "i < length E \<Longrightarrow> length (pairwise_distances E ! i) = length E"
  by (simp add: pairwise_distances_tab length_nth_tab)

lemma pairwise_distances_nonneg:
  "i < length E \<Longrightarrow> j < length E \<Longrightarrow> 0 \<le> pairwise_distances E ! i ! j"
  by (simp add: pairwise_distances_nth)

lemma pairwise_distances_diag: "i < length E \<Longrightarrow> pairwise_distances E ! i ! i = 0"
  by (simp add: pairwise_distances_nth)

section \<open>The claims about the distance matrix\<close>

text \<open>
  C1 (the code departs from the claim). The claim: entry [i][j] of the returned matrix is
  the squared Euclidean distance of embeddings i and j, clamped at zero. The code adds
  the squared norm of embedding j twice (both \<open>expand_dims\<close> are along axis 0), so the
  entry is \<open>max (2 * dot e\<^sub>j e\<^sub>j - 2 * dot e\<^sub>i e\<^sub>j) 0\<close> (lemma \<open>pairwise_distances_nth\<close>).
  For the batch of the two one-dimensional embeddings 0 and 1 the returned matrix is
  [[0, 2], [0, 0]], while the squared distance of the two embeddings is 1 in either order.
\<close>

theorem pairwise_distances_not_squared_euclidean: "pairwise_distances [[0], [1]] = [[0, 2], [0, 0]] \<and>
   spec_squared_distance [0] [1] = 1 \<and> spec_squared_distance [1] [0] = 1"
  by (simp add: eval_defs spec_squared_distance_def)

text \<open>
  C2 (the code departs from the claim). For the embeddings [0, 1, 5, 6] with the labels
  [A, A, B, B] (written 0, 0, 1, 1) the returned matrix is not the one the claim gives;
  the miner's choice for anchor 0 is the claimed one, positive 1 and negative 2.
\<close>

theorem scenario_distance_matrix_and_mining:
  "pairwise_distances [[0], [1], [5], [6]]
     = [[0, 2, 50, 72], [0, 0, 40, 60], [0, 0, 0, 12], [0, 0, 0, 0]] \<and>
   batch_hard self [[0], [1], [5], [6]] [0, 0, 1, 1]
     = Inr ([0..<this_batch_size self], [1, 0, 3, 0], [2, 2, 0, 0])"
  by (simp add: eval_defs)

text \<open>
  C3 (the code departs from the claim). The returned matrix has a zero diagonal and no
  negative entry (lemmas \<open>pairwise_distances_diag\<close> and \<open>pairwise_distances_nonneg\<close>),
  but it is not symmetric: for the embeddings 0 and 1, entry [0][1] is 2 and entry [1][0]
  is 0.
\<close>

theorem pairwise_distances_not_symmetric:
  "pairwise_distances [[0], [1]] ! 0 ! 1 = 2 \<and> pairwise_distances [[0], [1]] ! 1 ! 0 = 0"
  by (simp add: eval_defs)

section \<open>The claims about the batch-hard miner\<close>

text \<open>
  C4, as stated, fails. Four equal embeddings with the labels [0, 0, 1, 1] are a batch of
  two classes with two members each. All distances are zero, every masked row is
  constant, and \<open>argmax\<close> and \<open>argmin\<close> return the first index: anchor 0 gets itself as
  positive and as negative.
\<close>

theorem batch_hard_ties_select_invalid:
  "batch_hard \<lparr>tower_model = (\<lambda>xs. []), X_data = [] :: nat list, y_data = [], n_examples = 0,
       n_classes = 0, batch_size = 1, indices = [], this_batch_size = 4\<rparr>
     [[0], [0], [0], [0]] [0, 0, 1, 1]
   = Inr ([0, 1, 2, 3], [0, 0, 0, 0], [0, 0, 0, 0])"
  by (simp add: eval_defs)


lemma positive_row_valid:
  fixes D :: "nat \<Rightarrow> real"
  assumes "a < n" "q < n" "q \<noteq> a" "labels ! q = labels ! a" "0 < D q"
  defines "row \<equiv> map (\<lambda>p. of_bool (a \<noteq> p \<and> labels ! p = labels ! a) * D p) [0..<n]"
  shows "argmax row < n \<and> labels ! argmax row = labels ! a \<and> argmax row \<noteq> a"
proof -
  have ne: "row \<noteq> []" and len: "length row = n"
    using assms by (auto simp: row_def)
  have pn: "argmax row < n"
    using argmax_less[OF ne] len by simp
  have "row ! q \<le> row ! argmax row"
    using argmax_ge[of q row] assms len by simp
  moreover have "row ! q = D q"
    using assms by (auto simp: row_def)
  ultimately have "0 < row ! argmax row"
    using assms by simp
  then have "of_bool (a \<noteq> argmax row \<and> labels ! argmax row = labels ! a) * D (argmax row) > 0"
    using pn by (simp add: row_def)
  then have "a \<noteq> argmax row \<and> labels ! argmax row = labels ! a"
    by (cases "a \<noteq> argmax row \<and> labels ! argmax row = labels ! a") simp_all
  with pn show ?thesis by auto
qed

lemma negative_row_valid:
  fixes D :: "nat \<Rightarrow> real"
  assumes "a < n" "m < n" "labels ! m \<noteq> labels ! a" "D m < M" "\<And>j. j < n \<Longrightarrow> 0 \<le> D j"
  defines "row \<equiv> map (\<lambda>k. D k + M * (1 - of_bool (labels ! k \<noteq> labels ! a))) [0..<n]"
  shows "argmin row < n \<and> labels ! argmin row \<noteq> labels ! a"
proof -
  have ne: "row \<noteq> []" and len: "length row = n"
    using assms by (auto simp: row_def)
  have pn: "argmin row < n"
    using argmin_less[OF ne] len by simp
  have "row ! argmin row \<le> row ! m"
    using argmin_le[of m row] assms len by simp
  moreover have "row ! m = D m"
    using assms by (auto simp: row_def)
  ultimately have lt: "row ! argmin row < M"
    using assms by simp
  have "labels ! argmin row \<noteq> labels ! a"
  proof
    assume "labels ! argmin row = labels ! a"
    then have "row ! argmin row = D (argmin row) + M"
      using pn by (simp add: row_def)
    with lt assms(5)[OF pn] show False by simp
  qed
  with pn show ?thesis by simp
qed

lemma positive_row_extremal:
  fixes D :: "nat \<Rightarrow> real"
  assumes "a < n" "q < n" "q \<noteq> a" "labels ! q = labels ! a" "\<And>j. j < n \<Longrightarrow> 0 \<le> D j"
  defines "row \<equiv> map (\<lambda>p. of_bool (a \<noteq> p \<and> labels ! p = labels ! a) * D p) [0..<n]"
  shows "D q \<le> D (argmax row)"
proof -
  have ne: "row \<noteq> []" and len: "length row = n"
    using assms by (auto simp: row_def)
  have pn: "argmax row < n"
    using argmax_less[OF ne] len by simp
  have "row ! q \<le> row ! argmax row"
    using argmax_ge[of q row] assms len by simp
  moreover have "row ! q = D q"
    using assms by (auto simp: row_def)
  moreover have "row ! argmax row \<le> D (argmax row)"
    using pn assms(5)[OF pn] by (simp add: row_def)
  ultimately show ?thesis by simp
qed

lemma negative_row_extremal:
  fixes D :: "nat \<Rightarrow> real"
  assumes "a < n" "m < n" "labels ! m \<noteq> labels ! a" "0 \<le> M"
  defines "row \<equiv> map (\<lambda>k. D k + M * (1 - of_bool (labels ! k \<noteq> labels ! a))) [0..<n]"
  shows "D (argmin row) \<le> D m"
proof -
  have ne: "row \<noteq> []" and len: "length row = n"
    using assms by (auto simp: row_def)
  have pn: "argmin row < n"
    using argmin_less[OF ne] len by simp
  have "row ! argmin row \<le> row ! m"
    using argmin_le[of m row] assms len by simp
  moreover have "row ! m = D m"
    using assms by (auto simp: row_def)
  moreover have "D (argmin row) \<le> row ! argmin row"
    using pn assms(4) by (simp add: row_def)
  ultimately show ?thesis by simp
qed

lemma amax_pairwise_nonneg:
  assumes "a < length E"
  shows "0 \<le> amax (pairwise_distances E ! a)"
proof -
  have "pairwise_distances E ! a ! a \<le> amax (pairwise_distances E ! a)"
    using assms by (intro amax_ge) (simp add: length_pairwise_distances_row)
  then show ?thesis using pairwise_distances_diag[OF assms] by simp
qed

text \<open>
  C4, amended. For every batch with as many labels as embeddings and every anchor \<open>a\<close>,
  the miner returns one positive and one negative index per anchor. If some example with
  the anchor's label, other than the anchor, has a strictly positive computed distance
  from the anchor, the selected positive has the anchor's label and is not the anchor. If
  some example with another label has a computed distance from the anchor strictly below
  the maximum of the anchor's row, the selected negative has another label than the
  anchor.
\<close>

theorem batch_hard_selection_valid:
  assumes len: "length labels = length E" and a: "a < length E"
  shows "\<exists>positives negatives.
     batch_hard self E labels = Inr ([0..<this_batch_size self], positives, negatives) \<and>
     length positives = length E \<and> length negatives = length E \<and>
     ((\<exists>p<length E. p \<noteq> a \<and> labels ! p = labels ! a \<and> 0 < pairwise_distances E ! a ! p)
        \<longrightarrow> positives ! a < length E \<and> labels ! (positives ! a) = labels ! a \<and> positives ! a \<noteq> a) \<and>
     ((\<exists>n<length E. labels ! n \<noteq> labels ! a \<and>
          pairwise_distances E ! a ! n < amax (pairwise_distances E ! a))
        \<longrightarrow> negatives ! a < length E \<and> labels ! (negatives ! a) \<noteq> labels ! a)"
proof -
  have ne: "E \<noteq> []" using a by auto
  let ?D = "\<lambda>p. pairwise_distances E ! a ! p"
  let ?prow = "map (\<lambda>p. of_bool (a \<noteq> p \<and> labels ! p = labels ! a) * ?D p) [0..<length E]"
  let ?nrow = "map (\<lambda>n. ?D n + amax (pairwise_distances E ! a)
                   * (1 - of_bool (labels ! n \<noteq> labels ! a))) [0..<length E]"
  have pv: "argmax ?prow < length E \<and> labels ! argmax ?prow = labels ! a \<and> argmax ?prow \<noteq> a"
    if "q < length E" "q \<noteq> a" "labels ! q = labels ! a" "0 < ?D q" for q
    using positive_row_valid[where D = ?D, OF a that] .
  have nv: "argmin ?nrow < length E \<and> labels ! argmin ?nrow \<noteq> labels ! a"
    if "m < length E" "labels ! m \<noteq> labels ! a" "?D m < amax (pairwise_distances E ! a)" for m
    using negative_row_valid[where D = ?D, OF a that pairwise_distances_nonneg[OF a]] .
  show ?thesis
    unfolding batch_hard_rows[OF len ne]
    using a pv nv by auto
qed

text \<open>
  C5, as stated, fails. In the batch of the embeddings 0, 0, 5, 5 with the labels
  [0, 0, 1, 1], anchor 0 has a candidate of each kind: index 1 with its own label, and
  indices 2 and 3 with the other label. Row 0 of the computed matrix is [0, 0, 50, 50]:
  the only valid positive is at distance 0, so the masked row is constant, and both
  valid negatives are at the row maximum, so the shifted row is constant. The miner
  returns index 0, the anchor itself, as positive and as negative: neither is one of the
  candidates, and the distance 0 of the selected negative is not the minimum 50 of the
  different-label candidates.
\<close>

theorem batch_hard_ties_not_extremal:
  "pairwise_distances [[0], [0], [5], [5]] ! 0 = [0, 0, 50, 50] \<and>
   batch_hard \<lparr>tower_model = (\<lambda>xs. []), X_data = [] :: nat list, y_data = [], n_examples = 0,
       n_classes = 0, batch_size = 1, indices = [], this_batch_size = 4\<rparr>
     [[0], [0], [5], [5]] [0, 0, 1, 1]
   = Inr ([0, 1, 2, 3], [0, 0, 0, 0], [0, 0, 0, 0])"
  by (simp add: eval_defs)

text \<open>
  C5, amended. Distances are the entries of the matrix that \<open>pairwise_distances\<close>
  returns. For every batch with as many labels as embeddings and every anchor \<open>a\<close>, the
  miner returns a positive and a negative index of the batch for \<open>a\<close>; no example with
  the anchor's label, other than the anchor, is strictly farther from the anchor than the
  selected positive, and no example with another label is strictly nearer than the
  selected negative. If some example with the anchor's label, other than the anchor, is
  at a strictly positive distance, the selected positive is itself such an example, so it
  is a same-label non-self candidate of maximum distance. If some example with another
  label is strictly nearer to the anchor than some example of the batch, the selected
  negative itself has another label, so it is a different-label candidate of minimum
  distance.
\<close>

theorem batch_hard_selection_extremal:
  assumes len: "length labels = length E" and a: "a < length E"
  shows "\<exists>positives negatives.
     batch_hard self E labels = Inr ([0..<this_batch_size self], positives, negatives) \<and>
     positives ! a < length E \<and> negatives ! a < length E \<and>
     (\<forall>p<length E. p \<noteq> a \<and> labels ! p = labels ! a
        \<longrightarrow> pairwise_distances E ! a ! p \<le> pairwise_distances E ! a ! (positives ! a)) \<and>
     (\<forall>n<length E. labels ! n \<noteq> labels ! a
        \<longrightarrow> pairwise_distances E ! a ! (negatives ! a) \<le> pairwise_distances E ! a ! n) \<and>
     ((\<exists>p<length E. p \<noteq> a \<and> labels ! p = labels ! a \<and> 0 < pairwise_distances E ! a ! p)
        \<longrightarrow> positives ! a \<noteq> a \<and> labels ! (positives ! a) = labels ! a) \<and>
     ((\<exists>n<length E. labels ! n \<noteq> labels ! a \<and>
          (\<exists>j<length E. pairwise_distances E ! a ! n < pairwise_distances E ! a ! j))
        \<longrightarrow> labels ! (negatives ! a) \<noteq> labels ! a)"
proof -
  have ne: "E \<noteq> []" using a by auto
  let ?D = "\<lambda>p. pairwise_distances E ! a ! p"
  let ?prow = "map (\<lambda>p. of_bool (a \<noteq> p \<and> labels ! p = labels ! a) * ?D p) [0..<length E]"
  let ?nrow = "map (\<lambda>n. ?D n + amax (pairwise_distances E ! a)
                   * (1 - of_bool (labels ! n \<noteq> labels ! a))) [0..<length E]"
  have p: "argmax ?prow < length E"
    using argmax_less[of ?prow] a ne by simp
  have n: "argmin ?nrow < length E"
    using argmin_less[of ?nrow] a ne by simp
  have pe: "?D q \<le> ?D (argmax ?prow)"
    if "q < length E" "q \<noteq> a" "labels ! q = labels ! a" for q
    using positive_row_extremal[where D = ?D, OF a that] pairwise_distances_nonneg[OF a] by simp
  have ne': "?D (argmin ?nrow) \<le> ?D m"
    if "m < length E" "labels ! m \<noteq> labels ! a" for m
    using negative_row_extremal[where D = ?D, OF a that amax_pairwise_nonneg[OF a]] by simp
  have pv: "argmax ?prow \<noteq> a \<and> labels ! argmax ?prow = labels ! a"
    if "q < length E" "q \<noteq> a" "labels ! q = labels ! a" "0 < ?D q" for q
    using positive_row_valid[where D = ?D, OF a that] by simp
  have nv: "labels ! argmin ?nrow \<noteq> labels ! a"
    if m: "m < length E" "labels ! m \<noteq> labels ! a" and j: "j < length E" "?D m < ?D j" for m j
  proof -
    have "?D j \<le> amax (pairwise_distances E ! a)"
      using j(1) a by (intro amax_ge) (simp add: length_pairwise_distances_row)
    then have "?D m < amax (pairwise_distances E ! a)"
      using j(2) by simp
    then show ?thesis
      using negative_row_valid[where D = ?D, OF a m _ pairwise_distances_nonneg[OF a]] by simp
  qed
  show ?thesis
    unfolding batch_hard_rows[OF len ne]
    using a p n pe ne' pv nv by auto
qed


theorem batch_hard_selection_valid_witness:
  "\<exists>positives negatives.
     batch_hard \<lparr>tower_model = (\<lambda>xs. []), X_data = [] :: nat list, y_data = [], n_examples = 0,
         n_classes = 0, batch_size = 1, indices = [], this_batch_size = 4\<rparr>
       [[0], [1], [5], [6]] [0, 0, 1, 1] = Inr ([0, 1, 2, 3], positives, negatives) \<and>
     [0, 0, 1, 1 :: int] ! (positives ! 0) = [0, 0, 1, 1] ! 0 \<and> positives ! 0 \<noteq> 0 \<and>
     [0, 0, 1, 1 :: int] ! (negatives ! 0) \<noteq> [0, 0, 1, 1] ! 0"
proof -
  let ?E = "[[0], [1], [5], [6]] :: matrix"
  let ?L = "[0, 0, 1, 1] :: int list"
  have D: "pairwise_distances ?E = [[0, 2, 50, 72], [0, 0, 40, 60], [0, 0, 0, 12], [0, 0, 0, 0]]"
    by (simp add: eval_defs)
  have hp: "\<exists>p<length ?E. p \<noteq> 0 \<and> ?L ! p = ?L ! 0 \<and> 0 < pairwise_distances ?E ! 0 ! p"
    unfolding D by (rule exI[of _ 1]) simp
  have hn: "\<exists>n<length ?E. ?L ! n \<noteq> ?L ! 0 \<and>
      pairwise_distances ?E ! 0 ! n < amax (pairwise_distances ?E ! 0)"
    unfolding D by (rule exI[of _ 2]) simp
  let ?G = "\<lparr>tower_model = (\<lambda>xs. []), X_data = [] :: nat list, y_data = [],
        n_examples = 0, n_classes = 0, batch_size = 1, indices = [], this_batch_size = 4\<rparr>"
  have len: "length ?L = length ?E" and a: "0 < length ?E"
    by simp_all
  obtain positives negatives where
    r: "batch_hard ?G ?E ?L = Inr ([0..<this_batch_size ?G], positives, negatives)"
    and p: "?L ! (positives ! 0) = ?L ! 0" "positives ! 0 \<noteq> 0"
    and n: "?L ! (negatives ! 0) \<noteq> ?L ! 0"
    using batch_hard_selection_valid[OF len a, of ?G] hp hn by blast
  have "[0..<this_batch_size ?G] = [0, 1, 2, 3]"
    by (simp add: upt_rec)
  then show ?thesis using r p n by auto
qed

theorem batch_hard_selection_extremal_witness:
  "\<exists>positives negatives.
     batch_hard \<lparr>tower_model = (\<lambda>xs. []), X_data = [] :: nat list, y_data = [], n_examples = 0,
         n_classes = 0, batch_size = 1, indices = [], this_batch_size = 4\<rparr>
       [[0], [1], [5], [6]] [0, 0, 1, 1] = Inr ([0, 1, 2, 3], positives, negatives) \<and>
     positives ! 0 = 1 \<and> negatives ! 0 = 2"
proof -
  let ?E = "[[0], [1], [5], [6]] :: matrix"
  let ?L = "[0, 0, 1, 1] :: int list"
  let ?G = "\<lparr>tower_model = (\<lambda>xs. []), X_data = [] :: nat list, y_data = [],
        n_examples = 0, n_classes = 0, batch_size = 1, indices = [], this_batch_size = 4\<rparr>"
  have D: "pairwise_distances ?E = [[0, 2, 50, 72], [0, 0, 40, 60], [0, 0, 0, 12], [0, 0, 0, 0]]"
    by (simp add: eval_defs)
  have len: "length ?L = length ?E" and a: "0 < length ?E"
    by simp_all
  have hp: "\<exists>p<length ?E. p \<noteq> 0 \<and> ?L ! p = ?L ! 0 \<and> 0 < pairwise_distances ?E ! 0 ! p"
    unfolding D by (rule exI[of _ 1]) simp
  have hn: "\<exists>n<length ?E. ?L ! n \<noteq> ?L ! 0 \<and>
      (\<exists>j<length ?E. pairwise_distances ?E ! 0 ! n < pairwise_distances ?E ! 0 ! j)"
    unfolding D by (rule exI[of _ 2], simp, rule exI[of _ 3], simp)
  obtain positives negatives where
    r: "batch_hard ?G ?E ?L = Inr ([0..<this_batch_size ?G], positives, negatives)"
    and pl: "positives ! 0 < length ?E" and nl: "negatives ! 0 < length ?E"
    and n: "\<forall>n<length ?E. ?L ! n \<noteq> ?L ! 0
        \<longrightarrow> pairwise_distances ?E ! 0 ! (negatives ! 0) \<le> pairwise_distances ?E ! 0 ! n"
    and pv: "positives ! 0 \<noteq> 0 \<and> ?L ! (positives ! 0) = ?L ! 0"
    and nv: "?L ! (negatives ! 0) \<noteq> ?L ! 0"
    using batch_hard_selection_extremal[OF len a, of ?G] hp hn by blast
  have cases4: "i = 0 \<or> i = 1 \<or> i = 2 \<or> i = 3" if "i < length ?E" for i
    using that by auto
  have p1: "positives ! 0 = 1"
    using cases4[OF pl] pv by auto
  have "pairwise_distances ?E ! 0 ! (negatives ! 0) \<le> pairwise_distances ?E ! 0 ! 2"
    using n[rule_format, of 2] by simp
  then have n2: "negatives ! 0 = 2"
    using cases4[OF nl] nv unfolding D by auto
  have "[0..<this_batch_size ?G] = [0, 1, 2, 3]"
    by (simp add: upt_rec)
  then show ?thesis using r p1 n2 by auto
qed

section \<open>The claim about the epoch-end reshuffle\<close>

lemma length_shuffle_loop: "length (shuffle_loop rnd i x) = length x"
  by (induction i arbitrary: x) (simp_all add: Let_def)

lemma mset_shuffle_loop: "i < length x \<Longrightarrow> mset (shuffle_loop rnd i x) = mset x"
proof (induction i arbitrary: x)
  case 0
  then show ?case by simp
next
  case (Suc i)
  let ?j = "randbelow rnd (Suc i + 1)"
  have j: "?j < length x"
  proof -
    have "?j < Suc i + 1" by (simp add: randbelow_def)
    with Suc.prems show ?thesis by simp
  qed
  have "mset (x[Suc i := x ! ?j, ?j := x ! Suc i]) = mset x"
    using mset_swap[OF j Suc.prems] .
  moreover have "mset (shuffle_loop rnd i (x[Suc i := x ! ?j, ?j := x ! Suc i]))
      = mset (x[Suc i := x ! ?j, ?j := x ! Suc i])"
    using Suc.prems by (intro Suc.IH) simp
  ultimately show ?case by (simp add: Let_def)
qed

lemma mset_shuffle: "mset (shuffle rnd x) = mset x"
proof (cases "x = []")
  case True
  then show ?thesis by (simp add: shuffle_def)
next
  case False
  then show ?thesis by (simp add: shuffle_def mset_shuffle_loop)
qed

text \<open>
  C9. Whatever the random source draws, \<open>on_epoch_end\<close> preserves the multiset of the
  indices: every index occurs after the call as often as before it, so every original
  index appears exactly once and no new index appears.
\<close>

theorem on_epoch_end_preserves_indices: "mset (indices (on_epoch_end rnd self)) = mset (indices self)"
  by (simp add: on_epoch_end_def mset_shuffle)

lemma indices_init: "mset (indices (init rnd tower X y c bs)) = mset [0..<length X]"
  by (simp add: init_def on_epoch_end_def mset_shuffle)


section \<open>The claims about the label encodings\<close>

lemma argmax_unique:
  assumes "k < length xs" "\<And>j. j < length xs \<Longrightarrow> j \<noteq> k \<Longrightarrow> xs ! j < xs ! k"
  shows "argmax xs = k"
proof (rule ccontr)
  assume ne: "argmax xs \<noteq> k"
  have "xs \<noteq> []" using assms(1) by auto
  then have "argmax xs < length xs" by (rule argmax_less)
  then have "xs ! argmax xs < xs ! k" using ne by (rule assms(2))
  moreover have "xs ! k \<le> xs ! argmax xs" using assms(1) by (rule argmax_ge)
  ultimately show False by simp
qed

lemma argmax_first:
  assumes "xs \<noteq> []" "\<And>j. j < length xs \<Longrightarrow> xs ! j \<le> xs ! 0"
  shows "argmax xs = 0"
  using assms
proof (induction xs rule: argmax.induct)
  case (3 x y ys)
  have "(y # ys) ! argmax (y # ys) \<le> x"
    using "3.prems"(2)[of "Suc (argmax (y # ys))"] argmax_less[of "y # ys"] by simp
  then show ?case by (simp add: Let_def)
qed simp_all

lemma nonzero_zeros: "nonzero (replicate c 0) = []"
  by (auto simp: nonzero_def filter_empty_conv)

lemma nonzero_nonempty: "k < length r \<Longrightarrow> r ! k \<noteq> 0 \<Longrightarrow> nonzero r \<noteq> []"
  by (auto simp: nonzero_def filter_empty_conv)

lemma argmax_one_hot: "k < c \<Longrightarrow> argmax ((replicate c 0)[k := 1]) = k"
  by (rule argmax_unique) (simp_all add: nth_list_update)

lemma row_index_zeros:
  "(if length (nonzero (replicate c 0)) = 0 then - 1 else int (argmax (replicate c 0))) = - 1"
  by (simp add: nonzero_zeros)

lemma row_index_one_hot:
  assumes "k < c"
  shows "(if length (nonzero ((replicate c 0)[k := 1])) = 0 then - 1
          else int (argmax ((replicate c 0)[k := 1]))) = int k"
proof -
  have "nonzero ((replicate c 0)[k := 1]) \<noteq> []"
    using assms by (intro nonzero_nonempty[of k]) simp_all
  then show ?thesis using assms by (simp add: argmax_one_hot)
qed

text \<open>
  C8. For every label matrix with at least one column, \<open>one_hot_to_index\<close> returns one
  index per row: \<open>- 1\<close> for a row of zeros, and \<open>k\<close> for the one-hot row whose entry 1 is
  at position \<open>k\<close>.
\<close>

theorem one_hot_to_index_rows:
  assumes "0 < c"
  shows "\<exists>idx. one_hot_to_index (Arr2 c rows) = Indices idx \<and> length idx = length rows \<and>
     (\<forall>i<length rows.
        (rows ! i = replicate c 0 \<longrightarrow> idx ! i = - 1) \<and>
        (\<forall>k<c. rows ! i = (replicate c 0)[k := 1] \<longrightarrow> idx ! i = int k))"
proof -
  define f :: "vec \<Rightarrow> int" where
    "f = (\<lambda>num. if length (nonzero num) = 0 then - 1 else int (argmax num))"
  have r: "one_hot_to_index (Arr2 c rows) = Indices (map f rows)"
    using assms by (simp add: f_def)
  have z: "f (replicate c 0) = - 1"
    unfolding f_def by (rule row_index_zeros)
  have o: "f ((replicate c 0)[k := 1]) = int k" if "k < c" for k
    unfolding f_def using that by (rule row_index_one_hot)
  have "length (map f rows) = length rows \<and>
     (\<forall>i<length rows.
        (rows ! i = replicate c 0 \<longrightarrow> map f rows ! i = - 1) \<and>
        (\<forall>k<c. rows ! i = (replicate c 0)[k := 1] \<longrightarrow> map f rows ! i = int k))"
    using z o by simp
  with r show ?thesis by blast
qed

theorem one_hot_to_index_rows_witness:
  "\<exists>idx. one_hot_to_index (Arr2 3 [[0, 1, 0], [0, 0, 0], [0, 0, 1]]) = Indices idx \<and>
     idx ! 0 = 1 \<and> idx ! 1 = - 1 \<and> idx ! 2 = 2"
proof -
  let ?rows = "[[0, 1, 0], [0, 0, 0], [0, 0, 1]] :: matrix"
  obtain idx where r: "one_hot_to_index (Arr2 3 ?rows) = Indices idx"
    and h: "\<forall>i<length ?rows.
        (?rows ! i = replicate 3 0 \<longrightarrow> idx ! i = - 1) \<and>
        (\<forall>k<3. ?rows ! i = (replicate 3 0)[k := 1] \<longrightarrow> idx ! i = int k)"
    using one_hot_to_index_rows[of 3 ?rows] by auto
  have "idx ! 0 = 1" using h[rule_format, of 0, THEN conjunct2, rule_format, of 1] by (simp add: numeral_3_eq_3)
  moreover have "idx ! 1 = - 1" using h[rule_format, of 1, THEN conjunct1] by (simp add: numeral_3_eq_3)
  moreover have "idx ! 2 = 2" using h[rule_format, of 2, THEN conjunct2, rule_format, of 2] by (simp add: numeral_3_eq_3 numeral_2_eq_2)
  ultimately show ?thesis using r by simp
qed


lemma fold_update_rows:
  "fold (\<lambda>i oh. oh[i := v]) is xs = map (\<lambda>i. if i \<in> set is then v else xs ! i) [0..<length xs]"
proof (induction "is" arbitrary: xs)
  case Nil
  then show ?case by (simp add: map_nth)
next
  case (Cons i "is")
  show ?case
    unfolding fold_simps Cons.IH
    by (rule nth_equalityI) (auto simp: nth_list_update)
qed

lemma eye_row: "k < n \<Longrightarrow> eye n ! k = (replicate n 0)[k := 1]"
  unfolding eye_def by (rule nth_equalityI) (auto simp: nth_list_update)

lemma index_to_one_hot_rows:
  assumes "y \<noteq> []" "\<forall>k\<in>set y. - 1 \<le> k \<and> k < int n" "0 < n"
  shows "index_to_one_hot y n =
     Inr (Arr2 n (map (\<lambda>k. if k = - 1 then replicate n (- 1) else (replicate n 0)[nat k := 1]) y))"
proof -
  have ok: "\<not> list_ex (\<lambda>k. k < - int n \<or> int n \<le> k) y"
    using assms by (auto simp: list_ex_iff)
  have rows: "map (\<lambda>i. if i \<in> set (filter (\<lambda>i. y ! i = - 1) [0..<length y]) then replicate n (- 1)
                     else map (\<lambda>k. eye n ! nat (if k < 0 then k + int n else k)) y ! i)
                [0..<length (map (\<lambda>k. eye n ! nat (if k < 0 then k + int n else k)) y)]
      = map (\<lambda>k. if k = - 1 then replicate n (- 1) else (replicate n 0)[nat k := 1]) y"
  proof (rule nth_equalityI)
    fix i
    assume "i < length (map (\<lambda>i. if i \<in> set (filter (\<lambda>i. y ! i = - 1) [0..<length y]) then replicate n (- 1)
                     else map (\<lambda>k. eye n ! nat (if k < 0 then k + int n else k)) y ! i)
                [0..<length (map (\<lambda>k. eye n ! nat (if k < 0 then k + int n else k)) y)])"
    then have i: "i < length y" by simp
    then have "y ! i \<in> set y" by simp
    then have b: "- 1 \<le> y ! i" "y ! i < int n" using assms(2) by auto
    show "map (\<lambda>i. if i \<in> set (filter (\<lambda>i. y ! i = - 1) [0..<length y]) then replicate n (- 1)
                     else map (\<lambda>k. eye n ! nat (if k < 0 then k + int n else k)) y ! i)
                [0..<length (map (\<lambda>k. eye n ! nat (if k < 0 then k + int n else k)) y)] ! i
      = map (\<lambda>k. if k = - 1 then replicate n (- 1) else (replicate n 0)[nat k := 1]) y ! i"
    proof (cases "y ! i = - 1")
      case True
      then show ?thesis using i by simp
    next
      case False
      then have "0 \<le> y ! i" using b by simp
      then show ?thesis using i False b by (simp add: eye_row)
    qed
  qed simp
  show ?thesis
    using assms(1) ok unfolding index_to_one_hot_def Let_def fold_update_rows rows by simp
qed

lemma row_index_minus_ones:
  assumes "0 < n"
  shows "(if length (nonzero (replicate n (- 1))) = 0 then - 1
          else int (argmax (replicate n (- 1)))) = 0"
proof -
  have "nonzero (replicate n (- 1)) \<noteq> []"
    using assms by (intro nonzero_nonempty[of 0]) simp_all
  moreover have "argmax (replicate n (- 1)) = 0"
    using assms by (intro argmax_first) simp_all
  ultimately show ?thesis by simp
qed

text \<open>
  C10, as stated, fails on the empty label array, whose entries all lie in the range:
  \<open>index_to_one_hot\<close> returns it unchanged, as a one-dimensional array, and
  \<open>one_hot_to_index\<close> maps a one-dimensional array without a nonzero entry to the single
  value \<open>- 1\<close>, not to the empty array.
\<close>

theorem round_trip_empty_array:
  "index_to_one_hot [] 3 = Inr (Arr1 []) \<and> one_hot_to_index (Arr1 []) = Scalar (- 1)"
  by (simp add: index_to_one_hot_def nonzero_def)

text \<open>
  C10, amended. For every non-empty array \<open>y\<close> of labels in \<open>[- 1, n)\<close> with \<open>0 < n\<close>,
  \<open>index_to_one_hot\<close> returns a matrix of \<open>n\<close> columns with one row per label, the row of
  a label \<open>- 1\<close> being all \<open>- 1\<close>; \<open>one_hot_to_index\<close> maps that matrix to \<open>y\<close> with every
  \<open>- 1\<close> replaced by 0; so the round trip returns \<open>y\<close> when all labels lie in \<open>[0, n)\<close>,
  and does not when a label is \<open>- 1\<close>.
\<close>

theorem round_trip_labels:
  assumes "y \<noteq> []" "\<forall>k\<in>set y. - 1 \<le> k \<and> k < int n" "0 < n"
  shows "\<exists>rows. index_to_one_hot y n = Inr (Arr2 n rows) \<and> length rows = length y \<and>
     (\<forall>i<length y. y ! i = - 1 \<longrightarrow> rows ! i = replicate n (- 1)) \<and>
     one_hot_to_index (Arr2 n rows) = Indices (map (\<lambda>k. if k = - 1 then 0 else k) y) \<and>
     ((\<forall>k\<in>set y. 0 \<le> k) \<longrightarrow> one_hot_to_index (Arr2 n rows) = Indices y)"
proof -
  define enc :: "int \<Rightarrow> vec" where
    "enc = (\<lambda>k. if k = - 1 then replicate n (- 1) else (replicate n 0)[nat k := 1])"
  define f :: "vec \<Rightarrow> int" where
    "f = (\<lambda>num. if length (nonzero num) = 0 then - 1 else int (argmax num))"
  have r: "index_to_one_hot y n = Inr (Arr2 n (map enc y))"
    unfolding enc_def using assms by (rule index_to_one_hot_rows)
  have d: "one_hot_to_index (Arr2 n (map enc y)) = Indices (map f (map enc y))"
    using assms(3) by (simp add: f_def)
  have fe: "f (enc k) = (if k = - 1 then 0 else k)" if "k \<in> set y" for k
  proof (cases "k = - 1")
    case True
    have "f (replicate n (- 1)) = 0"
      unfolding f_def by (rule row_index_minus_ones[OF assms(3)])
    then show ?thesis using True by (simp add: enc_def)
  next
    case False
    then have k: "0 \<le> k" "nat k < n" using assms(2) that by auto
    have "f ((replicate n 0)[nat k := 1]) = int (nat k)"
      unfolding f_def using k(2) by (rule row_index_one_hot)
    then show ?thesis using False k by (simp add: enc_def)
  qed
  have m: "map f (map enc y) = map (\<lambda>k. if k = - 1 then 0 else k) y"
    using fe by simp
  have id: "map (\<lambda>k. if k = - 1 then 0 else k) y = y" if "\<forall>k\<in>set y. 0 \<le> k"
    using that by (intro map_idI) auto
  have s: "\<forall>i<length y. y ! i = - 1 \<longrightarrow> map enc y ! i = replicate n (- 1)"
    by (simp add: enc_def)
  have d': "one_hot_to_index (Arr2 n (map enc y)) = Indices (map (\<lambda>k. if k = - 1 then 0 else k) y)"
    by (simp only: d m)
  show ?thesis
  proof (intro exI[of _ "map enc y"] conjI impI)
    show "index_to_one_hot y n = Inr (Arr2 n (map enc y))" by (rule r)
    show "length (map enc y) = length y" by simp
    show "\<forall>i<length y. y ! i = - 1 \<longrightarrow> map enc y ! i = replicate n (- 1)" by (rule s)
    show "one_hot_to_index (Arr2 n (map enc y)) = Indices (map (\<lambda>k. if k = - 1 then 0 else k) y)"
      by (rule d')
    show "one_hot_to_index (Arr2 n (map enc y)) = Indices y" if "\<forall>k\<in>set y. 0 \<le> k"
      by (simp only: d' id[OF that])
  qed
qed

theorem round_trip_labels_witness:
  "\<exists>rows. index_to_one_hot [1, 0, 3, - 1] 4 = Inr (Arr2 4 rows) \<and>
     rows ! 3 = replicate 4 (- 1) \<and>
     one_hot_to_index (Arr2 4 rows) = Indices [1, 0, 3, 0] \<and>
   (\<exists>rows'. index_to_one_hot [1, 0, 3] 4 = Inr (Arr2 4 rows') \<and>
     one_hot_to_index (Arr2 4 rows') = Indices [1, 0, 3])"
proof -
  let ?y = "[1, 0, 3, - 1] :: int list"
  have hy: "?y \<noteq> []" "\<forall>k\<in>set ?y. - 1 \<le> k \<and> k < int 4" "0 < (4::nat)"
    by simp_all
  obtain rows where r: "index_to_one_hot ?y 4 = Inr (Arr2 4 rows)"
    and s: "\<forall>i<length ?y. ?y ! i = - 1 \<longrightarrow> rows ! i = replicate 4 (- 1)"
    and d: "one_hot_to_index (Arr2 4 rows) = Indices (map (\<lambda>k. if k = - 1 then 0 else k) ?y)"
    using round_trip_labels[OF hy] by blast
  have "rows ! 3 = replicate 4 (- 1)"
    using s[rule_format, of 3] by simp
  then have a: "\<exists>rows. index_to_one_hot ?y 4 = Inr (Arr2 4 rows) \<and>
     rows ! 3 = replicate 4 (- 1) \<and>
     one_hot_to_index (Arr2 4 rows) = Indices [1, 0, 3, 0]"
    using r d by simp
  let ?z = "[1, 0, 3] :: int list"
  have hz: "?z \<noteq> []" "\<forall>k\<in>set ?z. - 1 \<le> k \<and> k < int 4" "0 < (4::nat)"
    by simp_all
  have nz: "\<forall>k\<in>set ?z. 0 \<le> k"
    by simp
  obtain rows' where "index_to_one_hot ?z 4 = Inr (Arr2 4 rows')"
    and "(\<forall>k\<in>set ?z. 0 \<le> k) \<longrightarrow> one_hot_to_index (Arr2 4 rows') = Indices ?z"
    using round_trip_labels[OF hz] by blast
  then have b: "\<exists>rows'. index_to_one_hot ?z 4 = Inr (Arr2 4 rows') \<and>
     one_hot_to_index (Arr2 4 rows') = Indices ?z"
    using nz by blast
  from a b show ?thesis by blast
qed

text \<open>The empty label array round-trips to the single value \<open>- 1\<close> for every number of classes.\<close>

lemma round_trip_empty_any_classes:
  "index_to_one_hot [] n = Inr (Arr1 []) \<and> one_hot_to_index (Arr1 []) = Scalar (- 1)"
  by (simp add: index_to_one_hot_def nonzero_def)

section \<open>The claim about the triplet loss\<close>

lemma sum_list_squares_nonneg: "0 \<le> sum_list (map2 (\<lambda>a b. (a - b)\<^sup>2) x (y :: vec))"
  by (rule sum_list_nonneg) auto

lemma euclidean_distance_nth:
  assumes "length x = length y" "i < length x" "length (x ! i) = length (y ! i)"
  shows "euclidean_distance eps (x, y) ! i = [spec_d eps (x ! i) (y ! i)]"
proof -
  have b: "broadcast (-) x y ! i = map2 (-) (x ! i) (y ! i)"
    using assms by (simp add: broadcast_def bc_row_same)
  have sq: "map (\<lambda>v. v * v) (map2 (-) (x ! i) (y ! i)) = map2 (\<lambda>a b. (a - b)\<^sup>2) (x ! i) (y ! i)"
    by (simp add: power2_eq_square split_def)
  have len: "i < length (broadcast (-) x y)"
    using assms by (simp add: broadcast_def)
  have nn: "max (max (sum_list (map2 (\<lambda>a b. (a - b)\<^sup>2) (x ! i) (y ! i))) eps) 0
      = max (sum_list (map2 (\<lambda>a b. (a - b)\<^sup>2) (x ! i) (y ! i))) eps"
    using sum_list_squares_nonneg[of "x ! i" "y ! i"] by simp
  have "K_square (broadcast (-) x y) ! i = map (\<lambda>v. v * v) (broadcast (-) x y ! i)"
    using len by (simp add: K_square_def)
  also have "\<dots> = map2 (\<lambda>a b. (a - b)\<^sup>2) (x ! i) (y ! i)"
    unfolding b by (rule sq)
  finally have ks: "K_square (broadcast (-) x y) ! i = map2 (\<lambda>a b. (a - b)\<^sup>2) (x ! i) (y ! i)" .
  have lks: "i < length (K_square (broadcast (-) x y))"
    using len by (simp add: K_square_def)
  have "K_sum_axis1 (K_square (broadcast (-) x y)) ! i
      = [sum_list (K_square (broadcast (-) x y) ! i)]"
    using lks unfolding K_sum_axis1_def by (rule nth_map)
  then have su: "K_sum_axis1 (K_square (broadcast (-) x y)) ! i
      = [sum_list (map2 (\<lambda>a b. (a - b)\<^sup>2) (x ! i) (y ! i))]"
    unfolding ks .
  have lsu: "i < length (K_sum_axis1 (K_square (broadcast (-) x y)))"
    using lks by (simp add: K_sum_axis1_def)
  have "euclidean_distance eps (x, y) ! i
      = map (\<lambda>v. sqrt (max v 0)) (map (\<lambda>v. max v eps) (K_sum_axis1 (K_square (broadcast (-) x y)) ! i))"
    using lsu by (simp add: euclidean_distance_def K_sqrt_def np_maximum_def)
  also have "\<dots> = [spec_d eps (x ! i) (y ! i)]"
    unfolding su by (simp add: nn spec_d_def)
  finally show ?thesis .
qed

lemma length_euclidean_distance:
  "length x = length y \<Longrightarrow> length (euclidean_distance eps (x, y)) = length x"
  by (simp add: euclidean_distance_def K_sqrt_def np_maximum_def K_sum_axis1_def
      K_square_def broadcast_def)

lemma spec_d_same: "0 < eps \<Longrightarrow> spec_d eps x x = sqrt eps"
proof -
  have "map2 (\<lambda>a b. (a - b)\<^sup>2) x x = map (\<lambda>a. 0) x"
    by (induction x) simp_all
  then have "sum_list (map2 (\<lambda>a b. (a - b)\<^sup>2) x x) = 0"
    by simp
  then show "0 < eps \<Longrightarrow> spec_d eps x x = sqrt eps"
    by (simp add: spec_d_def)
qed

text \<open>
  C6. For batches A, P, N of equally many embeddings and every position \<open>i\<close> at which the
  three embeddings have the same dimension, the loss at \<open>i\<close> is
  \<open>max (d(A, P) - d(A, N) + margin) 0\<close> with \<open>d\<close> the distance \<open>spec_d\<close> and the margin
  \<open>ALPHA = 1\<close>; when \<open>eps\<close> is positive and the anchor equals the positive, \<open>d(A, P)\<close> is
  \<open>sqrt eps\<close> and the loss is \<open>max (sqrt eps - d(A, N) + margin) 0\<close>.
\<close>

theorem triplet_distance_formula:
  assumes "length A = length P" "length A = length N" "i < length A"
    and "length (A ! i) = length (P ! i)" "length (A ! i) = length (N ! i)"
  shows "triplet_distance eps (A, P, N) ! i
           = [max (spec_d eps (A ! i) (P ! i) - spec_d eps (A ! i) (N ! i) + ALPHA) 0] \<and>
         ALPHA = 1 \<and>
         (0 < eps \<and> A ! i = P ! i \<longrightarrow>
            spec_d eps (A ! i) (P ! i) = sqrt eps \<and>
            triplet_distance eps (A, P, N) ! i
              = [max (sqrt eps - spec_d eps (A ! i) (N ! i) + ALPHA) 0])"
proof -
  let ?dp = "euclidean_distance eps (A, P)"
  let ?dn = "euclidean_distance eps (A, N)"
  have lp: "length ?dp = length A" and ln: "length ?dn = length A"
    using assms by (simp_all add: length_euclidean_distance)
  have p: "?dp ! i = [spec_d eps (A ! i) (P ! i)]"
    using assms by (intro euclidean_distance_nth) simp_all
  have n: "?dn ! i = [spec_d eps (A ! i) (N ! i)]"
    using assms by (intro euclidean_distance_nth) simp_all
  have "broadcast (-) ?dp ?dn ! i = bc_row (-) (?dp ! i) (?dn ! i)"
    using lp ln assms(3) by (simp add: broadcast_def)
  then have b: "broadcast (-) ?dp ?dn ! i = [spec_d eps (A ! i) (P ! i) - spec_d eps (A ! i) (N ! i)]"
    by (simp add: p n bc_row_def)
  have len: "i < length (broadcast (-) ?dp ?dn)"
    using lp ln assms(3) by (simp add: broadcast_def)
  have loss: "triplet_distance eps (A, P, N) ! i
      = [max (spec_d eps (A ! i) (P ! i) - spec_d eps (A ! i) (N ! i) + ALPHA) 0]"
    using len by (simp add: triplet_distance_def np_maximum_def b)
  have same: "spec_d eps (A ! i) (P ! i) = sqrt eps" if "0 < eps" "A ! i = P ! i"
    using that spec_d_same[of eps "P ! i"] by simp
  show ?thesis
    using loss same by (simp add: ALPHA_def)
qed

theorem triplet_distance_formula_witness:
  "triplet_distance (1 / 10 ^ 7) ([[3, 4]], [[3, 4]], [[4, 4]]) ! 0
     = [max (sqrt (1 / 10 ^ 7) - spec_d (1 / 10 ^ 7) [3, 4] [4, 4] + 1) 0] \<and>
   spec_d (1 / 10 ^ 7) [3, 4] [3, 4] = sqrt (1 / 10 ^ 7) \<and>
   spec_d (1 / 10 ^ 7) [3, 4] [4, 4] = 1"
proof -
  have "spec_d (1 / 10 ^ 7) [3, 4] [4, 4] = 1"
    by (simp add: spec_d_def)
  then show ?thesis
    using triplet_distance_formula[of "[[3, 4]]" "[[3, 4]]" "[[4, 4]]" 0 "1 / 10 ^ 7"]
    by (simp add: ALPHA_def)
qed

section \<open>The claim about the batches of an epoch\<close>

lemma select_mask_boolean:
  assumes "length data = n"
  shows "select_mask data (boolean_mask n bi)
     = map (\<lambda>i. data ! i) (filter (\<lambda>i. i \<in> set bi) [0..<n])"
proof -
  have "zip data (map (\<lambda>i. i \<in> set bi) [0..<n])
      = map (\<lambda>i. (data ! i, i \<in> set bi)) [0..<n]"
    using assms by (intro nth_equalityI) simp_all
  then show ?thesis
    by (simp add: select_mask_def boolean_mask_def filter_map o_def)
qed

lemma mset_filter_member:
  assumes "distinct bi" "set bi \<subseteq> {0..<n}"
  shows "mset (filter (\<lambda>i. i \<in> set bi) [0..<n]) = mset bi"
proof -
  have "set (filter (\<lambda>i. i \<in> set bi) [0..<n]) = set bi"
    using assms by auto
  moreover have "distinct (filter (\<lambda>i. i \<in> set bi) [0..<n])"
    by simp
  ultimately show ?thesis
    using assms(1) set_eq_iff_mset_eq_distinct by blast
qed

lemma py_slice_batch:
  assumes "0 < b" "0 \<le> index"
  shows "py_slice xs (index * b) ((index + 1) * b) = take (nat b) (drop (nat (index * b)) xs)"
proof -
  let ?n = "int (length xs)"
  have lo: "0 \<le> index * b" using assms by simp
  have hi: "0 \<le> (index + 1) * b" using assms by simp
  show ?thesis
  proof (cases "index * b \<le> ?n")
    case True
    note le = True
    show ?thesis
    proof (cases "(index + 1) * b \<le> ?n")
      case True
      have "(index + 1) * b - index * b = b" by (simp add: algebra_simps)
      then show ?thesis using lo hi le True
        by (simp add: py_slice_def Let_def min_def not_less)
    next
      case False
      then have "length (drop (nat (index * b)) xs) \<le> nat (?n - index * b)"
        by simp
      moreover have "?n - index * b \<le> b"
        using False by (simp add: algebra_simps)
      ultimately show ?thesis using lo hi le False
        by (simp add: py_slice_def Let_def min_def not_less)
    qed
  next
    case False
    then have "drop (nat (index * b)) xs = []" by simp
    moreover have "\<not> (index + 1) * b \<le> ?n"
      using False assms by (simp add: algebra_simps)
    ultimately show ?thesis using lo hi False
      by (simp add: py_slice_def Let_def min_def not_less)
  qed
qed

lemma concat_batches:
  "concat (map (\<lambda>i. take m (drop (i * m) xs)) [0..<k]) = take (k * m) xs"
proof (induction k)
  case 0
  then show ?case by simp
next
  case (Suc k)
  have "take (k * m + m) xs = take (k * m) xs @ take m (drop (k * m) xs)"
    by (rule take_add)
  with Suc show ?case by (simp add: add.commute)
qed

lemma batch_hard_in_range:
  assumes "length labels = length E" "E \<noteq> []"
  shows "\<exists>positives negatives.
     batch_hard self E labels = Inr ([0..<this_batch_size self], positives, negatives) \<and>
     length positives = length E \<and> length negatives = length E \<and>
     list_all (\<lambda>i. i < length E) positives \<and> list_all (\<lambda>i. i < length E) negatives"
proof -
  have "argmax (map f [0..<length E]) < length E" for f :: "nat \<Rightarrow> real"
    using argmax_less[of "map f [0..<length E]"] assms(2) by simp
  moreover have "argmin (map f [0..<length E]) < length E" for f :: "nat \<Rightarrow> real"
    using argmin_less[of "map f [0..<length E]"] assms(2) by simp
  ultimately show ?thesis
    unfolding batch_hard_rows[OF assms] by (simp add: list_all_iff)
qed


lemma ceiling_batches_cover:
  assumes "0 < (b::int)"
  shows "n \<le> nat \<lceil>real n / real_of_int b\<rceil> * nat b"
proof -
  let ?k = "\<lceil>real n / real_of_int b\<rceil>"
  have "real n / real_of_int b \<le> of_int ?k" by (rule le_of_int_ceiling)
  moreover have "0 < real_of_int b" using assms by simp
  ultimately have "real n \<le> of_int ?k * real_of_int b"
    by (simp only: pos_divide_le_eq)
  then have "real_of_int (int n) \<le> real_of_int (?k * b)" by simp
  then have le: "int n \<le> ?k * b" by (simp only: of_int_le_iff)
  have "0 \<le> real n / real_of_int b" using assms by simp
  then have "0 \<le> ?k" using ceiling_mono[of 0 "real n / real_of_int b"] by simp
  then have "int (nat ?k * nat b) = ?k * b"
    using assms by simp
  with le show ?thesis by linarith
qed

text \<open>
  C7. For a generator over \<open>n_examples\<close> stored examples and label rows, whose indices
  are a permutation of \<open>0..<n_examples\<close>, with a positive batch size, at least one
  class column and a tower model that returns one embedding per example:
  \<open>len\<close> returns the ceiling of \<open>n_examples / batch_size\<close>, and the slices of that many
  batches, one after the other, are the whole permutation. For every \<open>index \<ge> 0\<close> with
  \<open>index * batch_size < n_examples\<close>, the slice of the batch is the next \<open>batch_size\<close>
  indices from position \<open>index * batch_size\<close> (fewer at the end of the permutation), and
  \<open>getitem\<close> returns the examples of the slice (in their stored order) as anchors,
  positives and negatives drawn from them, as many of each as the slice has indices, and
  as many zeros as dummy targets. With 11 examples and batch size 100 there is one batch,
  of size 11.
\<close>

theorem batches_of_an_epoch:
  fixes self :: "'x generator"
  assumes b: "0 < batch_size self"
    and nX: "length (X_data self) = n_examples self"
    and ny: "length (y_data self) = n_examples self"
    and perm: "mset (indices self) = mset [0..<n_examples self]"
    and cls: "0 < n_classes self"
    and tower: "\<forall>xs. length (tower_model self xs) = length xs"
    and idx: "0 \<le> index" "index * batch_size self < int (n_examples self)"
  shows "len self = Inr \<lceil>real (n_examples self) / real_of_int (batch_size self)\<rceil> \<and>
    concat (map (\<lambda>i. py_slice (indices self) (int i * batch_size self)
                        ((int i + 1) * batch_size self))
              [0..<nat \<lceil>real (n_examples self) / real_of_int (batch_size self)\<rceil>])
      = indices self \<and>
    (let slice = take (nat (batch_size self))
                   (drop (nat (index * batch_size self)) (indices self))
     in py_slice (indices self) (index * batch_size self) ((index + 1) * batch_size self) = slice \<and>
        length slice = min (nat (batch_size self)) (n_examples self - nat (index * batch_size self)) \<and>
        (\<exists>X_anchors X_positives X_negatives y_dummy.
           getitem self index =
             Inr (((X_anchors, X_positives, X_negatives), y_dummy),
                  self\<lparr>this_batch_size := length slice\<rparr>) \<and>
           X_anchors = map (\<lambda>i. X_data self ! i)
                         (filter (\<lambda>i. i \<in> set slice) [0..<n_examples self]) \<and>
           mset X_anchors = mset (map (\<lambda>i. X_data self ! i) slice) \<and>
           length X_positives = length slice \<and> length X_negatives = length slice \<and>
           set X_positives \<subseteq> set X_anchors \<and> set X_negatives \<subseteq> set X_anchors \<and>
           y_dummy = replicate (length slice) 0 \<and>
           (n_examples self = 11 \<and> batch_size self = 100 \<longrightarrow>
              len self = Inr 1 \<and> index = 0 \<and> length X_anchors = 11)))"
proof -
  let ?b = "batch_size self"
  let ?n = "n_examples self"
  let ?xs = "indices self"
  let ?slice = "take (nat ?b) (drop (nat (index * ?b)) ?xs)"
  let ?sorted = "filter (\<lambda>i. i \<in> set ?slice) [0..<?n]"
  let ?Xb = "map (\<lambda>i. X_data self ! i) ?sorted"
  let ?yb = "map (\<lambda>i. y_data self ! i) ?sorted"
  let ?self = "self\<lparr>this_batch_size := length ?slice\<rparr>"
  have len_xs: "length ?xs = ?n"
    using perm by (metis length_upt mset_eq_length minus_nat.diff_0)
  have dist_xs: "distinct ?xs"
    using perm by (metis distinct_upt mset_eq_imp_distinct_iff)
  have set_xs: "set ?xs = {0..<?n}"
    using perm by (metis mset_eq_setD set_upt)
  text \<open>the number of batches\<close>
  have L: "len self = Inr \<lceil>real ?n / real_of_int ?b\<rceil>"
    using b by (simp add: len_def)
  have sl: "py_slice ?xs (int i * ?b) ((int i + 1) * ?b) = take (nat ?b) (drop (i * nat ?b) ?xs)" for i
    using py_slice_batch[OF b, of "int i" ?xs] b by (simp add: nat_mult_distrib)
  have C: "concat (map (\<lambda>i. py_slice ?xs (int i * ?b) ((int i + 1) * ?b))
              [0..<nat \<lceil>real ?n / real_of_int ?b\<rceil>]) = ?xs"
    unfolding sl concat_batches
    using ceiling_batches_cover[OF b, of ?n] len_xs by simp
  text \<open>the slice of the batch\<close>
  have S: "py_slice ?xs (index * ?b) ((index + 1) * ?b) = ?slice"
    using b idx(1) by (rule py_slice_batch)
  have "0 \<le> index * ?b"
    using idx(1) b by simp
  then have lo: "nat (index * ?b) < ?n"
    using idx(2) by (simp add: nat_less_iff)
  have len_slice: "length ?slice = min (nat ?b) (?n - nat (index * ?b))"
    using len_xs by simp
  have slice_ne: "?slice \<noteq> []"
    using len_slice lo b by (metis length_0_conv min_less_iff_conj not_less_zero zero_less_diff zero_less_nat_eq)
  have dist_slice: "distinct ?slice"
    using dist_xs by simp
  have set_slice: "set ?slice \<subseteq> {0..<?n}"
    using set_xs by (metis set_drop_subset set_take_subset subset_trans)
  have ms: "mset ?sorted = mset ?slice"
    using dist_slice set_slice by (rule mset_filter_member)
  then have len_sorted: "length ?sorted = length ?slice"
    by (rule mset_eq_length)
  text \<open>the selected rows\<close>
  have Xsel: "select_mask (X_data ?self) (boolean_mask (n_examples ?self) ?slice) = ?Xb"
    using select_mask_boolean[OF nX, of ?slice] by simp
  have ysel: "select_mask (y_data ?self) (boolean_mask (n_examples ?self) ?slice) = ?yb"
    using select_mask_boolean[OF ny, of ?slice] by simp
  have lenX: "length ?Xb = length ?slice" and leny: "length ?yb = length ?slice"
    using len_sorted by simp_all
  have msX: "mset ?Xb = mset (map (\<lambda>i. X_data self ! i) ?slice)"
    using ms by (metis mset_map)
  text \<open>labels, embeddings and the mined indices\<close>
  define Xb where "Xb = ?Xb"
  define yb where "yb = ?yb"
  define m where "m = length ?slice"
  have lenXb: "length Xb = m" and lenyb: "length yb = m"
    using lenX leny by (simp_all only: Xb_def yb_def m_def)
  have m_pos: "0 < m"
    using slice_ne by (simp add: m_def)
  define labels where
    "labels = map (\<lambda>num. if length (nonzero num) = 0 then - 1 else int (argmax num)) yb"
  have oh: "one_hot_to_index (Arr2 (n_classes self) yb) = Indices labels"
    using cls by (simp add: labels_def)
  define E where "E = tower_model self Xb"
  have lenE: "length E = m"
    using tower lenXb by (simp add: E_def)
  have lenL: "length labels = length E"
    using lenyb lenE by (simp add: labels_def)
  have Ene: "E \<noteq> []"
    using lenE m_pos by auto
  define self' where "self' = self\<lparr>this_batch_size := m\<rparr>"
  obtain positives negatives where
    bh: "batch_hard self' E labels = Inr ([0..<this_batch_size self'], positives, negatives)"
    and lp: "length positives = length E" and ln: "length negatives = length E"
    and rp: "list_all (\<lambda>i. i < length E) positives"
    and rn: "list_all (\<lambda>i. i < length E) negatives"
    using batch_hard_in_range[OF lenL Ene, of self'] by blast
  have tbs: "this_batch_size self' = m" by (simp add: self'_def)
  have "map (\<lambda>i. Xb ! i) [0..<m] = Xb"
    using map_nth[of Xb] lenXb by simp
  then have fa: "fancy_index Xb [0..<m] = Inr Xb"
    using lenXb by (simp add: fancy_index_def list_all_iff)
  have fp: "fancy_index Xb positives = Inr (map (\<lambda>i. Xb ! i) positives)"
    using rp lenE lenXb by (simp add: fancy_index_def)
  have fn: "fancy_index Xb negatives = Inr (map (\<lambda>i. Xb ! i) negatives)"
    using rn lenE lenXb by (simp add: fancy_index_def)
  have fields: "tower_model self' = tower_model self" "n_classes self' = n_classes self"
    by (simp_all add: self'_def)
  have G0: "getitem self index =
      (let self = self';
           X_selected = Xb;
           y_selected = yb
       in if length X_selected \<noteq> this_batch_size self \<or> length y_selected \<noteq> this_batch_size self
          then Inl ValueError
          else
            let X_batch = X_selected;
                y_batch = Arr2 (n_classes self) y_selected;
                embeddings = tower_model self X_batch
            in case one_hot_to_index y_batch of
                 Scalar k \<Rightarrow> Inl IndexError
               | Indices labels \<Rightarrow>
                   (case batch_hard self embeddings labels of
                      Inl e \<Rightarrow> Inl e
                    | Inr (anchor_inds, positive_inds, negative_inds) \<Rightarrow>
                        (case fancy_index X_batch anchor_inds of
                           Inl e \<Rightarrow> Inl e
                         | Inr X_anchors \<Rightarrow>
                             (case fancy_index X_batch positive_inds of
                                Inl e \<Rightarrow> Inl e
                              | Inr X_positives \<Rightarrow>
                                  (case fancy_index X_batch negative_inds of
                                     Inl e \<Rightarrow> Inl e
                                   | Inr X_negatives \<Rightarrow>
                                       let y_dummy = replicate (this_batch_size self) 0
                                       in Inr (((X_anchors, X_positives, X_negatives), y_dummy),
                                               self))))))"
    unfolding getitem_def S Let_def Xsel ysel
    unfolding Xb_def[symmetric] yb_def[symmetric] m_def[symmetric] self'_def[symmetric] ..
  have G: "getitem self index =
      Inr (((Xb, map (\<lambda>i. Xb ! i) positives, map (\<lambda>i. Xb ! i) negatives), replicate m 0), self')"
    unfolding G0 Let_def tbs fields
    using lenXb lenyb
    by (simp add: oh E_def[symmetric] bh tbs fa fp fn del: one_hot_to_index.simps)
  have subp: "set (map (\<lambda>i. Xb ! i) positives) \<subseteq> set Xb"
    using rp lenE lenXb by (auto simp: list_all_iff)
  have subn: "set (map (\<lambda>i. Xb ! i) negatives) \<subseteq> set Xb"
    using rn lenE lenXb by (auto simp: list_all_iff)
  have particular: "len self = Inr 1 \<and> index = 0 \<and> length Xb = 11"
    if "?n = 11 \<and> ?b = 100"
  proof -
    have "index = 0" using idx that by simp
    moreover have "len self = Inr 1" using that by (simp add: len_def)
    moreover have "m = 11"
      unfolding m_def len_slice using that \<open>index = 0\<close> by simp
    ultimately show ?thesis using lenXb by simp
  qed
  show ?thesis
    unfolding Let_def
  proof (intro conjI exI)
    show "len self = Inr \<lceil>real ?n / real_of_int ?b\<rceil>" by (rule L)
    show "concat (map (\<lambda>i. py_slice ?xs (int i * ?b) ((int i + 1) * ?b))
              [0..<nat \<lceil>real ?n / real_of_int ?b\<rceil>]) = ?xs" by (rule C)
    show "py_slice ?xs (index * ?b) ((index + 1) * ?b) = ?slice" by (rule S)
    show "length ?slice = min (nat ?b) (?n - nat (index * ?b))" by (rule len_slice)
    show "getitem self index =
        Inr (((?Xb, map (\<lambda>i. ?Xb ! i) positives, map (\<lambda>i. ?Xb ! i) negatives),
              replicate (length ?slice) 0), ?self)"
      using G unfolding Xb_def m_def self'_def .
    show "?Xb = ?Xb" ..
    show "mset ?Xb = mset (map (\<lambda>i. X_data self ! i) ?slice)" by (rule msX)
    show "length (map (\<lambda>i. ?Xb ! i) positives) = length ?slice"
      using lp lenE by (simp add: m_def)
    show "length (map (\<lambda>i. ?Xb ! i) negatives) = length ?slice"
      using ln lenE by (simp add: m_def)
    show "set (map (\<lambda>i. ?Xb ! i) positives) \<subseteq> set ?Xb"
      using subp unfolding Xb_def .
    show "set (map (\<lambda>i. ?Xb ! i) negatives) \<subseteq> set ?Xb"
      using subn unfolding Xb_def .
    show "replicate (length ?slice) (0::real) = replicate (length ?slice) 0" ..
    show "?n = 11 \<and> ?b = 100 \<longrightarrow> len self = Inr 1 \<and> index = 0 \<and> length ?Xb = 11"
      using particular unfolding Xb_def by blast
  qed
qed


theorem batches_of_an_epoch_witness:
  "len \<lparr>tower_model = (\<lambda>xs. map (\<lambda>x. [real x]) xs), X_data = [0..<11],
        y_data = replicate 11 [1, 0], n_examples = 11, n_classes = 2, batch_size = 100,
        indices = rev [0..<11], this_batch_size = 0\<rparr> = Inr 1 \<and>
   (\<exists>X_anchors X_positives X_negatives y_dummy.
      getitem \<lparr>tower_model = (\<lambda>xs. map (\<lambda>x. [real x]) xs), X_data = [0..<11],
        y_data = replicate 11 [1, 0], n_examples = 11, n_classes = 2, batch_size = 100,
        indices = rev [0..<11], this_batch_size = 0\<rparr> 0
        = Inr (((X_anchors, X_positives, X_negatives), y_dummy),
               \<lparr>tower_model = (\<lambda>xs. map (\<lambda>x. [real x]) xs), X_data = [0..<11],
                y_data = replicate 11 [1, 0], n_examples = 11, n_classes = 2, batch_size = 100,
                indices = rev [0..<11], this_batch_size = 11\<rparr>) \<and>
      length X_anchors = 11 \<and> length X_positives = 11 \<and> length X_negatives = 11 \<and>
      y_dummy = replicate 11 0)"
proof -
  let ?G = "\<lparr>tower_model = (\<lambda>xs. map (\<lambda>x. [real x]) xs), X_data = [0..<11] :: nat list,
        y_data = replicate 11 [1, 0], n_examples = 11, n_classes = 2, batch_size = 100,
        indices = rev [0..<11], this_batch_size = 0\<rparr>"
  let ?slice = "take (nat (batch_size ?G)) (drop (nat (0 * batch_size ?G)) (indices ?G))"
  have h: "0 < batch_size ?G" "length (X_data ?G) = n_examples ?G"
    "length (y_data ?G) = n_examples ?G" "mset (indices ?G) = mset [0..<n_examples ?G]"
    "0 < n_classes ?G" "\<forall>xs. length (tower_model ?G xs) = length xs"
    "(0::int) \<le> 0" "0 * batch_size ?G < int (n_examples ?G)"
    by simp_all
  have ls: "length ?slice = 11"
    by simp
  have nb: "n_examples ?G = 11 \<and> batch_size ?G = 100"
    by simp
  from batches_of_an_epoch[OF h, unfolded Let_def]
  obtain X_anchors X_positives X_negatives y_dummy where
    l: "len ?G = Inr \<lceil>real (n_examples ?G) / real_of_int (batch_size ?G)\<rceil>"
    and g: "getitem ?G 0 = Inr (((X_anchors, X_positives, X_negatives), y_dummy),
          ?G\<lparr>this_batch_size := length ?slice\<rparr>)"
    and lp: "length X_positives = length ?slice" and ln: "length X_negatives = length ?slice"
    and yd: "y_dummy = replicate (length ?slice) 0"
    and p: "n_examples ?G = 11 \<and> batch_size ?G = 100 \<longrightarrow>
        len ?G = Inr 1 \<and> (0::int) = 0 \<and> length X_anchors = 11"
    by blast
  have l1: "len ?G = Inr 1" and la: "length X_anchors = 11"
    using p nb by blast+
  have rec: "?G\<lparr>this_batch_size := length ?slice\<rparr>
      = \<lparr>tower_model = (\<lambda>xs. map (\<lambda>x. [real x]) xs), X_data = [0..<11] :: nat list,
        y_data = replicate 11 [1, 0], n_examples = 11, n_classes = 2, batch_size = 100,
        indices = rev [0..<11], this_batch_size = 11\<rparr>"
    unfolding ls by simp
  have g': "getitem ?G 0 = Inr (((X_anchors, X_positives, X_negatives), y_dummy),
        \<lparr>tower_model = (\<lambda>xs. map (\<lambda>x. [real x]) xs), X_data = [0..<11] :: nat list,
        y_data = replicate 11 [1, 0], n_examples = 11, n_classes = 2, batch_size = 100,
        indices = rev [0..<11], this_batch_size = 11\<rparr>)"
    using g unfolding rec .
  have lp': "length X_positives = 11" and ln': "length X_negatives = 11"
    and yd': "y_dummy = replicate 11 0"
    using lp ln yd unfolding ls by simp_all
  from l1 g' la lp' ln' yd' show ?thesis by blast
qed

end
